theory Spec2Isabelle
  imports Main "HOL-Library.Word" "HOL-Library.AList" "HOL-Library.Sublist"
begin

unbundle bit_operations_syntax

section \<open>JavaScript values\<close>

text \<open>
  The webhook body is JSON decoded by the framework, so every value the program handles
  is a JSON value. An object keeps its properties as an association list, in the order
  in which \<^verbatim>\<open>Object.keys\<close> enumerates them (keys that look like array indices first, the
  others in insertion order); its keys are distinct. A value that may be
  \<^verbatim>\<open>undefined\<close> is a \<open>json option\<close>, with \<open>None\<close> for \<^verbatim>\<open>undefined\<close>.

  Numbers are integers: the numbers this program computes with are epoch timestamps, and
  on integers up to \<open>10^12\<close> in magnitude the multiplication by 1000 is exact in double
  precision. \<^verbatim>\<open>NaN\<close> and the infinities are no JSON values. Strings are lists of 8-bit
  characters and stand for ASCII text: letter case and white space are those of ASCII.
\<close>

datatype json =
    JNull
  | JBool bool
  | JNum int
  | JStr string
  | JArr "json list"
  | JObj "(string \<times> json) list"

subsection \<open>Printing integers\<close>

text \<open>Decimal digits with a minus sign, as JavaScript prints an integer (below \<open>10^21\<close>
  in magnitude) when it is concatenated to a string or serialized.\<close>

definition digit_char :: "nat \<Rightarrow> char" where
  "digit_char d = ''0123456789'' ! (d mod 10)"

fun show_nat :: "nat \<Rightarrow> string" where
  "show_nat n = (if n < 10 then [digit_char n] else show_nat (n div 10) @ [digit_char n])"

declare show_nat.simps [simp del]

definition show_int :: "int \<Rightarrow> string" where
  "show_int i = (if i < 0 then CHR ''-'' # show_nat (nat (- i)) else show_nat (nat i))"

subsection \<open>Strings\<close>

definition upper_letters :: string where
  "upper_letters = ''ABCDEFGHIJKLMNOPQRSTUVWXYZ''"

definition lower_letters :: string where
  "lower_letters = ''abcdefghijklmnopqrstuvwxyz''"

definition lower_char :: "char \<Rightarrow> char" where
  "lower_char c = (case map_of (zip upper_letters lower_letters) c of Some d \<Rightarrow> d | None \<Rightarrow> c)"

definition upper_char :: "char \<Rightarrow> char" where
  "upper_char c = (case map_of (zip lower_letters upper_letters) c of Some d \<Rightarrow> d | None \<Rightarrow> c)"

definition toLowerCase :: "string \<Rightarrow> string" where
  "toLowerCase s = map lower_char s"

definition toUpperCase :: "string \<Rightarrow> string" where
  "toUpperCase s = map upper_char s"

text \<open>White space as \<^verbatim>\<open>String.prototype.trim\<close> sees it, within ASCII:
  tab, line feed, vertical tab, form feed, carriage return and space.\<close>

definition is_ws :: "char \<Rightarrow> bool" where
  "is_ws c = (c \<in> set [CHR 0x09, CHR 0x0A, CHR 0x0B, CHR 0x0C, CHR 0x0D, CHR 0x20])"

definition trim :: "string \<Rightarrow> string" where
  "trim s = rev (dropWhile is_ws (rev (dropWhile is_ws s)))"

text \<open>\<^verbatim>\<open>hay.includes(needle)\<close>: the needle occurs at some position of the hay.\<close>

fun str_includes :: "string \<Rightarrow> string \<Rightarrow> bool" where
  "str_includes [] needle = (needle = [])"
| "str_includes (c # cs) needle = (take (length needle) (c # cs) = needle \<or> str_includes cs needle)"

subsection \<open>Property access and coercions\<close>

text \<open>
  The own enumerable properties of a value, in enumeration order: those of an object are
  its members, those of an array or of a string are its indices. No JSON value has
  an inherited or non-enumerable property under a name the program reads
  (\<^verbatim>\<open>user_data\<close>, \<^verbatim>\<open>name\<close>, \<^verbatim>\<open>channel\<close>, ...), so a read is a lookup among these.
\<close>

definition index_keys :: "nat \<Rightarrow> string list" where
  "index_keys n = map show_nat [0..<n]"

fun own_props :: "json \<Rightarrow> (string \<times> json) list" where
  "own_props (JObj kvs) = kvs"
| "own_props (JArr xs) = zip (index_keys (length xs)) xs"
| "own_props (JStr s) = zip (index_keys (length s)) (map (\<lambda>c. JStr [c]) s)"
| "own_props _ = []"

definition Object_keys :: "json \<Rightarrow> string list" where
  "Object_keys v = map fst (own_props v)"

definition get :: "json \<Rightarrow> string \<Rightarrow> json option" where
  "get v k = map_of (own_props v) k"

text \<open>Truthiness, \<^verbatim>\<open>a || b\<close> and \<^verbatim>\<open>a ?? b\<close>.\<close>

fun truthy :: "json option \<Rightarrow> bool" where
  "truthy None = False"
| "truthy (Some JNull) = False"
| "truthy (Some (JBool b)) = b"
| "truthy (Some (JNum n)) = (n \<noteq> 0)"
| "truthy (Some (JStr s)) = (s \<noteq> [])"
| "truthy (Some (JArr _)) = True"
| "truthy (Some (JObj _)) = True"

definition js_or :: "json option \<Rightarrow> json option \<Rightarrow> json option" where
  "js_or a b = (if truthy a then a else b)"

fun or_obj :: "json option \<Rightarrow> json" where
  "or_obj (Some v) = (if truthy (Some v) then v else JObj [])"
| "or_obj None = JObj []"

fun nullish :: "json option \<Rightarrow> json" where
  "nullish None = JNull"
| "nullish (Some v) = v"

section \<open>Field extractors\<close>

subsection \<open>pickDeviceId\<close>

definition recognized :: "string list" where
  "recognized = [''idfa'', ''idfv'', ''adid'', ''advertising_id'', ''gaid'']"

text \<open>The \<^verbatim>\<open>for (const key of Object.keys(u))\<close> loop, returning at the first hit.\<close>

fun scan_keys :: "json \<Rightarrow> string list \<Rightarrow> string option" where
  "scan_keys u [] = None"
| "scan_keys u (key # keys) =
     (if toLowerCase key \<in> set recognized
      then (case get u key of
              Some (JStr val) \<Rightarrow> if trim val \<noteq> [] then Some (trim val) else scan_keys u keys
            | _ \<Rightarrow> scan_keys u keys)
      else scan_keys u keys)"

definition pickDeviceId :: "int \<Rightarrow> json \<Rightarrow> string" where
  "pickDeviceId now p =
     (let u = or_obj (get p ''user_data'')
      in case scan_keys u (Object_keys u) of
           Some d \<Rightarrow> d
         | None \<Rightarrow> ''fallback-'' @ show_int now)"

subsection \<open>toMillis\<close>

text \<open>
  What the program asks of the JavaScript runtime: the clock (\<^verbatim>\<open>Date.now()\<close>, read as one
  instant per invocation), the number a string denotes (\<^verbatim>\<open>Number(s)\<close>, \<open>None\<close> for
  \<^verbatim>\<open>NaN\<close>), the instant a date string denotes (\<^verbatim>\<open>new Date(s).getTime()\<close>, \<open>None\<close>
  for an invalid date) and the outbound HTTP call. They are parameters of the model.
\<close>

datatype exn = TypeError string | FetchError string

record fetch_response =
  resp_status :: nat
  resp_text :: "exn + string"

record runtime =
  now :: int
  Number_of_string :: "string \<Rightarrow> int option"
  Date_parse :: "string \<Rightarrow> int option"
  fetch :: "string \<Rightarrow> json \<Rightarrow> exn + fetch_response"

fun join :: "string list \<Rightarrow> string" where
  "join [] = []"
| "join [x] = x"
| "join (x # y # ys) = x @ '','' @ join (y # ys)"

text \<open>\<^verbatim>\<open>String(v)\<close>, which \<^verbatim>\<open>Number(v)\<close> and \<^verbatim>\<open>new Date(v)\<close> apply to an array or
  an object first. An object converts through its \<^verbatim>\<open>toString\<close>: the inherited one gives
  \<^verbatim>\<open>[object Object]\<close>, but an own property of that name holds a JSON value, which cannot
  be called, and then the conversion throws. An array joins the strings of its
  elements, so it throws when one of them does.\<close>

fun throws_on_toString :: "json \<Rightarrow> bool" where
  "throws_on_toString (JObj kvs) = (''toString'' \<in> set (map fst kvs))"
| "throws_on_toString (JArr xs) = list_ex throws_on_toString xs"
| "throws_on_toString _ = False"

fun to_string :: "json \<Rightarrow> string" where
  "to_string JNull = ''null''"
| "to_string (JBool b) = (if b then ''true'' else ''false'')"
| "to_string (JNum n) = show_int n"
| "to_string (JStr s) = s"
| "to_string (JArr xs) = join (map (\<lambda>x. if x = JNull then [] else to_string x) xs)"
| "to_string (JObj kvs) = ''[object Object]''"

definition js_toString :: "json \<Rightarrow> exn + string" where
  "js_toString v =
     (if throws_on_toString v then Inl (TypeError ''Cannot convert object to primitive value'')
      else Inr (to_string v))"

fun js_Number :: "runtime \<Rightarrow> json \<Rightarrow> exn + int option" where
  "js_Number B JNull = Inr (Some 0)"
| "js_Number B (JBool b) = Inr (Some (if b then 1 else 0))"
| "js_Number B (JNum n) = Inr (Some n)"
| "js_Number B v = (case js_toString v of Inl e \<Rightarrow> Inl e | Inr s \<Rightarrow> Inr (Number_of_string B s))"

fun Date_getTime :: "runtime \<Rightarrow> json \<Rightarrow> exn + int option" where
  "Date_getTime B JNull = Inr (Some 0)"
| "Date_getTime B (JBool b) = Inr (Some (if b then 1 else 0))"
| "Date_getTime B (JNum n) = Inr (Some n)"
| "Date_getTime B v = (case js_toString v of Inl e \<Rightarrow> Inl e | Inr s \<Rightarrow> Inr (Date_parse B s))"

text \<open>\<^verbatim>\<open>n > 1e12 ? n : n * 1000\<close>\<close>

definition seconds_or_millis :: "int \<Rightarrow> int" where
  "seconds_or_millis n = (if n > 1000000000000 then n else n * 1000)"

text \<open>A JSON value is never a \<^verbatim>\<open>Date\<close>, so the \<^verbatim>\<open>instanceof Date\<close> branch is not
  taken. In \<^verbatim>\<open>d.getTime() || Date.now()\<close> both \<^verbatim>\<open>NaN\<close> and 0 are falsy. The function
  throws where \<^verbatim>\<open>Number(ts)\<close> does.\<close>

fun toMillis :: "runtime \<Rightarrow> json option \<Rightarrow> exn + int" where
  "toMillis B None = Inr (now B)"
| "toMillis B (Some JNull) = Inr (now B)"
| "toMillis B (Some (JNum n)) = Inr (seconds_or_millis n)"
| "toMillis B (Some ts) =
     (case js_Number B ts of
        Inl e \<Rightarrow> Inl e
      | Inr (Some n) \<Rightarrow> Inr (seconds_or_millis n)
      | Inr None \<Rightarrow>
          (case Date_getTime B ts of
             Inl e \<Rightarrow> Inl e
           | Inr None \<Rightarrow> Inr (now B)
           | Inr (Some t) \<Rightarrow> Inr (if t = 0 then now B else t)))"

subsection \<open>normalizeEventType\<close>

datatype event_kind = Install | Reinstall | Open | Other

fun kind_name :: "event_kind \<Rightarrow> string" where
  "kind_name Install = ''install''"
| "kind_name Reinstall = ''reinstall''"
| "kind_name Open = ''open''"
| "kind_name Other = ''other''"

definition classify :: "string \<Rightarrow> event_kind \<times> string" where
  "classify raw =
     (if str_includes raw ''REINSTALL'' then (Reinstall, ''Branch Reinstall'')
      else if str_includes raw ''INSTALL'' then (Install, ''Branch Attributed Install'')
      else if str_includes raw ''OPEN'' then (Open, ''Branch Open'')
      else (Other, if raw \<noteq> [] then raw else ''Branch Event''))"

text \<open>\<^verbatim>\<open>p.name || p.event || ""\<close>\<close>

definition event_name :: "json \<Rightarrow> json option" where
  "event_name p = js_or (js_or (get p ''name'') (get p ''event'')) (Some (JStr []))"

text \<open>\<^verbatim>\<open>(p.name || p.event || "").toUpperCase()\<close> throws when the chosen value is not a
  string.\<close>

definition normalizeEventType :: "json \<Rightarrow> exn + event_kind \<times> string" where
  "normalizeEventType p =
     (case event_name p of
        Some (JStr s) \<Rightarrow> Inr (classify (toUpperCase s))
      | _ \<Rightarrow> Inl (TypeError ''toUpperCase is not a function''))"

section \<open>Idempotency key\<close>

subsection \<open>JSON.stringify\<close>

definition hex_digit :: "nat \<Rightarrow> char" where
  "hex_digit d = ''0123456789abcdef'' ! (d mod 16)"

text \<open>A string in double quotes: quote and backslash escaped, control characters as
  their short escapes or as \<^verbatim>\<open>\u00XX\<close>.\<close>

definition quote_char :: "char \<Rightarrow> string" where
  "quote_char c =
     (if c = CHR 0x22 then [CHR 0x5C, CHR 0x22]
      else if c = CHR 0x5C then [CHR 0x5C, CHR 0x5C]
      else if c = CHR 0x08 then [CHR 0x5C, CHR ''b'']
      else if c = CHR 0x0C then [CHR 0x5C, CHR ''f'']
      else if c = CHR 0x0A then [CHR 0x5C, CHR ''n'']
      else if c = CHR 0x0D then [CHR 0x5C, CHR ''r'']
      else if c = CHR 0x09 then [CHR 0x5C, CHR ''t'']
      else if (of_char c :: nat) < 32
        then [CHR 0x5C, CHR ''u'', CHR ''0'', CHR ''0'',
              hex_digit (of_char c div 16), hex_digit (of_char c)]
      else [c])"

definition quote :: "string \<Rightarrow> string" where
  "quote s = [CHR 0x22] @ concat (map quote_char s) @ [CHR 0x22]"

fun stringify :: "json \<Rightarrow> string" where
  "stringify JNull = ''null''"
| "stringify (JBool b) = (if b then ''true'' else ''false'')"
| "stringify (JNum n) = show_int n"
| "stringify (JStr s) = quote s"
| "stringify (JArr xs) = ''['' @ join (map stringify xs) @ '']''"
| "stringify (JObj kvs) =
     ''{'' @ join (map (\<lambda>kv. quote (fst kv) @ '':'' @ stringify (snd kv)) kvs) @ ''}''"

text \<open>An object literal as \<^verbatim>\<open>JSON.stringify\<close> sends it: a property whose value is
  \<^verbatim>\<open>undefined\<close> is left out.\<close>

fun present :: "(string \<times> json option) list \<Rightarrow> (string \<times> json) list" where
  "present [] = []"
| "present ((k, None) # fs) = present fs"
| "present ((k, Some v) # fs) = (k, v) # present fs"

definition obj :: "(string \<times> json option) list \<Rightarrow> json" where
  "obj fs = JObj (present fs)"

subsection \<open>SHA-256\<close>

text \<open>The digest \<^verbatim>\<open>crypto.createHash("sha256")\<close> computes (FIPS 180-4), on the bytes of
  the string.\<close>

type_synonym u32 = "32 word"

definition K256 :: "u32 list" where
  "K256 = [
   1116352408, 1899447441, 3049323471, 3921009573, 961987163, 1508970993, 2453635748, 2870763221,
   3624381080, 310598401, 607225278, 1426881987, 1925078388, 2162078206, 2614888103, 3248222580,
   3835390401, 4022224774, 264347078, 604807628, 770255983, 1249150122, 1555081692, 1996064986,
   2554220882, 2821834349, 2952996808, 3210313671, 3336571891, 3584528711, 113926993, 338241895,
   666307205, 773529912, 1294757372, 1396182291, 1695183700, 1986661051, 2177026350, 2456956037,
   2730485921, 2820302411, 3259730800, 3345764771, 3516065817, 3600352804, 4094571909, 275423344,
   430227734, 506948616, 659060556, 883997877, 958139571, 1322822218, 1537002063, 1747873779,
   1955562222, 2024104815, 2227730452, 2361852424, 2428436474, 2756734187, 3204031479, 3329325298]"

definition H256 :: "u32 list" where
  "H256 = [1779033703, 3144134277, 1013904242, 2773480762, 1359893119, 2600822924, 528734635, 1541459225]"

definition Ch :: "u32 \<Rightarrow> u32 \<Rightarrow> u32 \<Rightarrow> u32" where
  "Ch x y z = (x AND y) XOR (NOT x AND z)"

definition Maj :: "u32 \<Rightarrow> u32 \<Rightarrow> u32 \<Rightarrow> u32" where
  "Maj x y z = (x AND y) XOR (x AND z) XOR (y AND z)"

definition Sigma0 :: "u32 \<Rightarrow> u32" where
  "Sigma0 x = word_rotr 2 x XOR word_rotr 13 x XOR word_rotr 22 x"

definition Sigma1 :: "u32 \<Rightarrow> u32" where
  "Sigma1 x = word_rotr 6 x XOR word_rotr 11 x XOR word_rotr 25 x"

definition sigma0 :: "u32 \<Rightarrow> u32" where
  "sigma0 x = word_rotr 7 x XOR word_rotr 18 x XOR drop_bit 3 x"

definition sigma1 :: "u32 \<Rightarrow> u32" where
  "sigma1 x = word_rotr 17 x XOR word_rotr 19 x XOR drop_bit 10 x"

text \<open>Message padding: a 1 bit, zeros up to 56 mod 64 bytes, the bit length in 64 bits.\<close>

definition length_bytes :: "64 word \<Rightarrow> 8 word list" where
  "length_bytes n = map (\<lambda>i. ucast (drop_bit (8 * (7 - i)) n)) [0..<8]"

definition pad :: "8 word list \<Rightarrow> 8 word list" where
  "pad m = m @ [0x80] @ replicate ((119 - length m mod 64) mod 64) 0
             @ length_bytes (8 * of_nat (length m))"

fun be_word :: "8 word list \<Rightarrow> u32" where
  "be_word bs = foldl (\<lambda>w b. push_bit 8 w OR ucast b) 0 bs"

fun chunks :: "nat \<Rightarrow> 'a list \<Rightarrow> 'a list list" where
  "chunks n [] = []"
| "chunks n xs = (if n = 0 then [xs] else take n xs # chunks n (drop n xs))"

text \<open>The message schedule, newest word first: \<open>ws ! 0\<close> is W(t-1).\<close>

fun schedule :: "nat \<Rightarrow> u32 list \<Rightarrow> u32 list" where
  "schedule 0 ws = ws"
| "schedule (Suc n) ws =
     schedule n ((sigma1 (ws ! 1) + ws ! 6 + sigma0 (ws ! 14) + ws ! 15) # ws)"

fun round :: "u32 list \<Rightarrow> u32 \<times> u32 \<Rightarrow> u32 list" where
  "round [a, b, c, d, e, f, g, h] (k, w) =
     (let t1 = h + Sigma1 e + Ch e f g + k + w;
          t2 = Sigma0 a + Maj a b c
      in [t1 + t2, a, b, c, d + t1, e, f, g])"
| "round st _ = st"

definition compress :: "u32 list \<Rightarrow> 8 word list \<Rightarrow> u32 list" where
  "compress hs block =
     (let w16 = map be_word (chunks 4 block);
          ws = rev (schedule 48 (rev w16))
      in map2 (+) hs (foldl round hs (zip K256 ws)))"

definition sha256 :: "8 word list \<Rightarrow> u32 list" where
  "sha256 m = foldl compress H256 (chunks 64 (pad m))"

definition hex32 :: "u32 \<Rightarrow> string" where
  "hex32 w = map (\<lambda>i. hex_digit (unat (drop_bit (4 * (7 - i)) w AND 15))) [0..<8]"

definition sha256_hex :: "string \<Rightarrow> string" where
  "sha256_hex s = concat (map hex32 (sha256 (map (\<lambda>c. of_nat (of_char c)) s)))"

subsection \<open>buildInsertId\<close>

text \<open>\<^verbatim>\<open>p.last_attributed_touch_data?.link_id\<close>\<close>

definition link_id :: "json \<Rightarrow> json option" where
  "link_id p =
     (case get p ''last_attributed_touch_data'' of
        None \<Rightarrow> None
      | Some JNull \<Rightarrow> None
      | Some latd \<Rightarrow> get latd ''link_id'')"

definition seed :: "json \<Rightarrow> int \<Rightarrow> string \<Rightarrow> string" where
  "seed p when label =
     stringify (obj [(''id'', get p ''id''), (''name'', get p ''name''),
                     (''event'', get p ''event''), (''when'', Some (JNum when)),
                     (''label'', Some (JStr label)), (''link'', link_id p)])"

definition buildInsertId :: "json \<Rightarrow> int \<Rightarrow> string \<Rightarrow> string" where
  "buildInsertId p when label = take 64 (sha256_hex (seed p when label))"

section \<open>Event composer and handler\<close>

record config =
  AMPLITUDE_KEY :: "string option"
  AMPLITUDE_ENDPOINT :: string
  BRANCH_TOKEN :: "string option"

record request =
  req_method :: string
  query_token :: "string option"
  req_body :: "json option"

datatype response = Sent nat string | Json nat json

text \<open>\<^verbatim>\<open>typeof v === "object"\<close> holds of objects, of arrays and of \<^verbatim>\<open>null\<close>.\<close>

fun typeof_object :: "json option \<Rightarrow> bool" where
  "typeof_object (Some JNull) = True"
| "typeof_object (Some (JArr _)) = True"
| "typeof_object (Some (JObj _)) = True"
| "typeof_object _ = False"

text \<open>Object spread copies own properties from left to right: a key already there keeps
  its place and takes the new value, a new key goes to the end.\<close>

definition assign :: "(string \<times> json) list \<Rightarrow> (string \<times> json) list \<Rightarrow> (string \<times> json) list" where
  "assign target src = fold (\<lambda>kv t. AList.update (fst kv) (snd kv) t) src target"

text \<open>\<^verbatim>\<open>typeof payload?.data === "object" ? { ...payload, ...payload.data } : payload\<close>\<close>

definition flatten :: "json \<Rightarrow> json" where
  "flatten payload =
     (if typeof_object (get payload ''data'')
      then JObj (assign (assign [] (own_props payload)) (own_props (nullish (get payload ''data''))))
      else payload)"

definition first_touch :: "json \<Rightarrow> event_kind \<Rightarrow> int \<Rightarrow> json" where
  "first_touch latd type when =
     obj [(''acq_channel_first'', Some (nullish (get latd ''channel''))),
          (''acq_campaign_first'', Some (nullish (get latd ''campaign''))),
          (''acq_partner_first'', Some (nullish (get latd ''ad_partner''))),
          (''acq_adset_first'', Some (nullish (get latd ''ad_set''))),
          (''acq_creative_first'', Some (nullish (get latd ''creative''))),
          (''acq_install_ts'', if type = Install then Some (JNum when) else None)]"

definition last_touch :: "json \<Rightarrow> int \<Rightarrow> json" where
  "last_touch latd when =
     obj [(''acq_channel_last'', Some (nullish (get latd ''channel''))),
          (''acq_campaign_last'', Some (nullish (get latd ''campaign''))),
          (''acq_partner_last'', Some (nullish (get latd ''ad_partner''))),
          (''acq_adset_last'', Some (nullish (get latd ''ad_set''))),
          (''acq_creative_last'', Some (nullish (get latd ''creative''))),
          (''acq_last_touch_ts'', Some (JNum when))]"

definition identification :: "string \<Rightarrow> json \<Rightarrow> event_kind \<Rightarrow> int \<Rightarrow> json" where
  "identification deviceId latd type when =
     obj [(''device_id'', Some (JStr deviceId)),
          (''user_id'', Some JNull),
          (''user_properties'',
             Some (obj [(''$setOnce'', Some (first_touch latd type when)),
                        (''$set'', Some (last_touch latd when))]))]"

definition identifyEvent :: "string \<Rightarrow> json \<Rightarrow> event_kind \<Rightarrow> int \<Rightarrow> json" where
  "identifyEvent deviceId latd type when =
     obj [(''device_id'', Some (JStr deviceId)),
          (''user_id'', Some JNull),
          (''event_type'', Some (JStr ''$identify'')),
          (''user_properties'', get (identification deviceId latd type when) ''user_properties''),
          (''time'', Some (JNum when))]"

text \<open>\<^verbatim>\<open>"k" in u\<close> throws on a primitive; no JSON array or object inherits one of the four
  names asked for.\<close>

fun js_in :: "string \<Rightarrow> json \<Rightarrow> exn + bool" where
  "js_in k (JObj kvs) = Inr (k \<in> set (map fst kvs))"
| "js_in k (JArr xs) = Inr (k \<in> set (index_keys (length xs)))"
| "js_in k _ = Inl (TypeError ''Cannot use the in operator on a primitive'')"

text \<open>\<^verbatim>\<open>("k" in u && typeof u.k === "string") ? u.k : undefined\<close>\<close>

definition string_field :: "string \<Rightarrow> json \<Rightarrow> exn + json option" where
  "string_field k u =
     (case js_in k u of
        Inl e \<Rightarrow> Inl e
      | Inr b \<Rightarrow> Inr (if b then (case get u k of Some (JStr s) \<Rightarrow> Some (JStr s) | _ \<Rightarrow> None)
                        else None))"

definition platform :: "json option \<Rightarrow> string" where
  "platform os =
     (if str_includes (toLowerCase (case os of Some (JStr s) \<Rightarrow> s | _ \<Rightarrow> [])) ''android''
      then ''Android'' else ''iOS'')"

definition event_properties :: "json \<Rightarrow> event_kind \<Rightarrow> json" where
  "event_properties latd type =
     obj [(''install_type'', Some (JStr (kind_name type))),
          (''branch_channel'', Some (nullish (get latd ''channel''))),
          (''branch_campaign'', Some (nullish (get latd ''campaign''))),
          (''branch_partner'', Some (nullish (get latd ''ad_partner''))),
          (''branch_adset'', Some (nullish (get latd ''ad_set''))),
          (''branch_creative'', Some (nullish (get latd ''creative''))),
          (''branch_feature'', Some (nullish (get latd ''feature''))),
          (''branch_link_id'', Some (nullish (get latd ''link_id''))),
          (''web_to_app'', Some (JBool (truthy (get latd ''web_to_app''))))]"

text \<open>\<^verbatim>\<open>p.user_data ?? {}\<close> keeps every value but \<^verbatim>\<open>null\<close> and \<^verbatim>\<open>undefined\<close>.\<close>

fun nullish_obj :: "json option \<Rightarrow> json" where
  "nullish_obj None = JObj []"
| "nullish_obj (Some JNull) = JObj []"
| "nullish_obj (Some v) = v"

definition branchEvent ::
  "string \<Rightarrow> json \<Rightarrow> event_kind \<Rightarrow> string \<Rightarrow> int \<Rightarrow> string \<Rightarrow> json \<Rightarrow> exn + json" where
  "branchEvent deviceId latd type label when insertId p =
     (let u = nullish_obj (get p ''user_data'') in
      case string_field ''app_version'' u of Inl e \<Rightarrow> Inl e | Inr app_version \<Rightarrow>
      case string_field ''os'' u of Inl e \<Rightarrow> Inl e | Inr os \<Rightarrow>
      case string_field ''os_version'' u of Inl e \<Rightarrow> Inl e | Inr os_version \<Rightarrow>
      case string_field ''device_model'' u of Inl e \<Rightarrow> Inl e | Inr device_model \<Rightarrow>
        Inr (obj [(''device_id'', Some (JStr deviceId)),
                  (''user_id'', Some JNull),
                  (''event_type'', Some (JStr label)),
                  (''time'', Some (JNum when)),
                  (''insert_id'', Some (JStr insertId)),
                  (''event_properties'', Some (event_properties latd type)),
                  (''app_version'', app_version),
                  (''platform'', Some (JStr (platform os))),
                  (''os_name'', os),
                  (''os_version'', os_version),
                  (''device_model'', device_model)]))"

definition combinedPayload :: "config \<Rightarrow> json \<Rightarrow> json \<Rightarrow> json" where
  "combinedPayload cfg ie be =
     obj [(''api_key'', map_option JStr (AMPLITUDE_KEY cfg)), (''events'', Some (JArr [ie, be]))]"

definition ok :: "fetch_response \<Rightarrow> bool" where
  "ok r = (200 \<le> resp_status r \<and> resp_status r \<le> 299)"

definition skipped :: response where
  "skipped = Json 202 (obj [(''skipped'', Some (JBool True)), (''reason'', Some (JStr ''no_device_id''))])"

definition event_failed :: "nat \<Rightarrow> string \<Rightarrow> response" where
  "event_failed st body =
     Json 500 (obj [(''error'', Some (JStr ''event_failed'')), (''status'', Some (JNum (int st))),
                    (''body'', Some (JStr body))])"

fun message :: "exn \<Rightarrow> string" where
  "message (TypeError m) = m"
| "message (FetchError m) = m"

definition server_error :: "exn \<Rightarrow> response" where
  "server_error e =
     Json 500 (obj [(''error'', Some (JStr ''server_error'')), (''message'', Some (JStr (message e)))])"

text \<open>\<^verbatim>\<open>p.last_attributed_touch_data || {}\<close> and
  \<^verbatim>\<open>toMillis(p.timestamp_millis || p.timestamp)\<close>\<close>

definition latd_of :: "json \<Rightarrow> json" where
  "latd_of p = or_obj (get p ''last_attributed_touch_data'')"

definition when_of :: "runtime \<Rightarrow> json \<Rightarrow> exn + int" where
  "when_of B p = toMillis B (js_or (get p ''timestamp_millis'') (get p ''timestamp''))"

text \<open>The outbound records of an invocation: none when it is skipped.\<close>

definition compose :: "config \<Rightarrow> runtime \<Rightarrow> json \<Rightarrow> exn + json option" where
  "compose cfg B p =
     (let deviceId = pickDeviceId (now B) p in
      if deviceId = [] then Inr None
      else
        let latd = latd_of p
        in case when_of B p of
             Inl e \<Rightarrow> Inl e
           | Inr when \<Rightarrow>
        case normalizeEventType p of
             Inl e \<Rightarrow> Inl e
           | Inr (type, label) \<Rightarrow>
               (let insertId = buildInsertId p when label
                in case branchEvent deviceId latd type label when insertId p of
                     Inl e \<Rightarrow> Inl e
                   | Inr be \<Rightarrow>
                       Inr (Some (combinedPayload cfg (identifyEvent deviceId latd type when) be))))"

definition deliver :: "config \<Rightarrow> runtime \<Rightarrow> json \<Rightarrow> exn + response" where
  "deliver cfg B payload =
     (case fetch B (AMPLITUDE_ENDPOINT cfg @ ''/2/httpapi'') payload of
        Inl e \<Rightarrow> Inl e
      | Inr evtRes \<Rightarrow>
          if \<not> ok evtRes
          then (case resp_text evtRes of
                  Inl e \<Rightarrow> Inl e
                | Inr text \<Rightarrow> Inr (event_failed (resp_status evtRes) text))
          else Inr (Json 200 (obj [(''ok'', Some (JBool True))])))"

definition authorized :: "config \<Rightarrow> request \<Rightarrow> bool" where
  "authorized cfg req =
     (case BRANCH_TOKEN cfg of
        None \<Rightarrow> False
      | Some t \<Rightarrow> t \<noteq> [] \<and> query_token req = Some t)"

definition handler :: "config \<Rightarrow> runtime \<Rightarrow> request \<Rightarrow> response" where
  "handler cfg B req =
     (if req_method req \<noteq> ''POST'' then Sent 405 ''Method Not Allowed''
      else if \<not> authorized cfg req then Sent 401 ''Unauthorized''
      else
        let p = flatten (or_obj (req_body req)) in
        case compose cfg B p of
          Inl e \<Rightarrow> server_error e
        | Inr None \<Rightarrow> skipped
        | Inr (Some payload) \<Rightarrow>
            (case deliver cfg B payload of
               Inl e \<Rightarrow> server_error e
             | Inr r \<Rightarrow> r))"

section \<open>The two-call variant\<close>

text \<open>
  The source holds a second version of the file. It differs in three places: the device
  id is chosen by a fixed precedence over exact keys and may be \<^verbatim>\<open>undefined\<close>, the
  identity record goes out in a call of its own before the event, and the device
  metadata is taken with \<^verbatim>\<open>||\<close>. Its functions carry the suffix 2.
\<close>

text \<open>\<^verbatim>\<open>u.k && u.k.trim()\<close>: a falsy value stays falsy (here the empty string), a truthy
  value that is not a string has no \<^verbatim>\<open>trim\<close>.\<close>

definition and_trim :: "json option \<Rightarrow> exn + string" where
  "and_trim v =
     (if \<not> truthy v then Inr []
      else case v of
             Some (JStr s) \<Rightarrow> Inr (trim s)
           | _ \<Rightarrow> Inl (TypeError ''trim is not a function''))"

definition pickDeviceId2 :: "json \<Rightarrow> exn + string option" where
  "pickDeviceId2 p =
     (let u = or_obj (get p ''user_data'') in
      case and_trim (get u ''idfa'') of Inl e \<Rightarrow> Inl e | Inr a \<Rightarrow>
        if a \<noteq> [] then Inr (Some a) else
      case and_trim (get u ''idfv'') of Inl e \<Rightarrow> Inl e | Inr b \<Rightarrow>
        if b \<noteq> [] then Inr (Some b) else
      case and_trim (get u ''adid'') of Inl e \<Rightarrow> Inl e | Inr c \<Rightarrow>
        if c \<noteq> [] then Inr (Some c) else Inr None)"

text \<open>\<^verbatim>\<open>u.k || undefined\<close>\<close>

definition or_undefined :: "json option \<Rightarrow> json option" where
  "or_undefined v = (if truthy v then v else None)"

text \<open>\<^verbatim>\<open>(u.os || "").toLowerCase().includes("android") ? "Android" : "iOS"\<close>\<close>

definition platform2 :: "json option \<Rightarrow> exn + string" where
  "platform2 os =
     (case js_or os (Some (JStr [])) of
        Some (JStr s) \<Rightarrow> Inr (if str_includes (toLowerCase s) ''android'' then ''Android'' else ''iOS'')
      | _ \<Rightarrow> Inl (TypeError ''toLowerCase is not a function''))"

definition eventBody2 ::
  "config \<Rightarrow> string \<Rightarrow> json \<Rightarrow> event_kind \<Rightarrow> string \<Rightarrow> int \<Rightarrow> string \<Rightarrow> json \<Rightarrow> exn + json" where
  "eventBody2 cfg deviceId latd type label when insertId p =
     (let u = or_obj (get p ''user_data'') in
      case platform2 (get u ''os'') of
        Inl e \<Rightarrow> Inl e
      | Inr pf \<Rightarrow>
          Inr (obj [(''api_key'', map_option JStr (AMPLITUDE_KEY cfg)),
                    (''events'', Some (JArr [
                       obj [(''device_id'', Some (JStr deviceId)),
                            (''user_id'', Some JNull),
                            (''event_type'', Some (JStr label)),
                            (''time'', Some (JNum when)),
                            (''insert_id'', Some (JStr insertId)),
                            (''event_properties'', Some (event_properties latd type)),
                            (''app_version'', or_undefined (get u ''app_version'')),
                            (''platform'', Some (JStr pf)),
                            (''os_name'', or_undefined (get u ''os'')),
                            (''os_version'', or_undefined (get u ''os_version'')),
                            (''device_model'', or_undefined (get u ''device_model''))]]))]))"

definition identify_failed :: "nat \<Rightarrow> string \<Rightarrow> response" where
  "identify_failed st body =
     Json 500 (obj [(''error'', Some (JStr ''identify_failed'')), (''status'', Some (JNum (int st))),
                    (''body'', Some (JStr body))])"

definition identifyBody2 :: "config \<Rightarrow> json \<Rightarrow> json" where
  "identifyBody2 cfg ident =
     obj [(''api_key'', map_option JStr (AMPLITUDE_KEY cfg)), (''identification'', Some (JArr [ident]))]"

definition process2 :: "config \<Rightarrow> runtime \<Rightarrow> json \<Rightarrow> exn + response" where
  "process2 cfg B p =
     (case pickDeviceId2 p of
        Inl e \<Rightarrow> Inl e
      | Inr None \<Rightarrow> Inr skipped
      | Inr (Some deviceId) \<Rightarrow>
          let latd = latd_of p
          in case when_of B p of
               Inl e \<Rightarrow> Inl e
             | Inr when \<Rightarrow>
          case normalizeEventType p of
               Inl e \<Rightarrow> Inl e
             | Inr (type, label) \<Rightarrow>
                 (let insertId = buildInsertId p when label
                  in case fetch B (AMPLITUDE_ENDPOINT cfg @ ''/identify'')
                            (identifyBody2 cfg (identification deviceId latd type when)) of
                       Inl e \<Rightarrow> Inl e
                     | Inr identRes \<Rightarrow>
                         if \<not> ok identRes
                         then (case resp_text identRes of
                                 Inl e \<Rightarrow> Inl e
                               | Inr text \<Rightarrow> Inr (identify_failed (resp_status identRes) text))
                         else
                           (case eventBody2 cfg deviceId latd type label when insertId p of
                              Inl e \<Rightarrow> Inl e
                            | Inr body \<Rightarrow> deliver cfg B body)))"

definition handler2 :: "config \<Rightarrow> runtime \<Rightarrow> request \<Rightarrow> response" where
  "handler2 cfg B req =
     (if req_method req \<noteq> ''POST'' then Sent 405 ''Method Not Allowed''
      else if \<not> authorized cfg req then Sent 401 ''Unauthorized''
      else case process2 cfg B (flatten (or_obj (req_body req))) of
             Inl e \<Rightarrow> server_error e
           | Inr r \<Rightarrow> r)"

section \<open>Vocabulary of the properties\<close>

text \<open>A string is blank when it is empty or all white space.\<close>

definition blank :: "string \<Rightarrow> bool" where
  "blank s = list_all is_ws s"

text \<open>An identity entry: a key that is, in some letter case, one of the recognized
  identifier names, holding a string that is not blank.\<close>

fun is_id_entry :: "string \<times> json \<Rightarrow> bool" where
  "is_id_entry (k, JStr s) = (toLowerCase k \<in> set recognized \<and> \<not> blank s)"
| "is_id_entry (k, _) = False"

text \<open>Reading a value along a path of property names; an array is read by its indices.\<close>

fun path :: "json \<Rightarrow> string list \<Rightarrow> json option" where
  "path v [] = Some v"
| "path v (k # ks) = (case get v k of None \<Rightarrow> None | Some w \<Rightarrow> path w ks)"

text \<open>The properties of the payload that the program reads.\<close>

definition fields_read :: "string list" where
  "fields_read = [''user_data'', ''last_attributed_touch_data'', ''timestamp_millis'',
                  ''timestamp'', ''name'', ''event'', ''id'']"

subsection \<open>Example inputs\<close>

text \<open>A configuration, a runtime whose downstream answers 503, and the payload of
  scenario A with some device metadata added.\<close>

definition example_config :: config where
  "example_config = \<lparr>AMPLITUDE_KEY = Some ''key'', AMPLITUDE_ENDPOINT = ''https://api2.amplitude.com'',
                      BRANCH_TOKEN = Some ''secret''\<rparr>"

definition example_runtime :: runtime where
  "example_runtime =
     \<lparr>now = 1700000000123,
      Number_of_string = map_of [(''1700000000'', 1700000000)],
      Date_parse = map_of [(''2023-11-14T22:13:20Z'', 1700000000000),
                           (''1970-01-01T00:00:00Z'', 0)],
      fetch = (\<lambda>url body. Inr \<lparr>resp_status = 503, resp_text = Inr ''Service Unavailable''\<rparr>)\<rparr>"

definition scenario_A :: json where
  "scenario_A =
     JObj [(''name'', JStr ''INSTALL''),
           (''user_data'', JObj [(''idfa'', JStr ''ABC123''), (''os'', JStr ''iOS''),
                                 (''os_version'', JNum 17), (''app_version'', JStr '''')]),
           (''last_attributed_touch_data'', JObj [(''channel'', JStr ''Facebook Ads'')]),
           (''timestamp_millis'', JNum 1700000000000)]"

text \<open>The scenario's outbound request body, as the downstream receives it.\<close>

definition scenario_A_out :: json where
  "scenario_A_out =
     JObj [(''api_key'', JStr ''key''),
      (''events'', JArr [
         JObj [(''device_id'', JStr ''ABC123''), (''user_id'', JNull),
               (''event_type'', JStr ''$identify''),
               (''user_properties'', JObj [
                  (''$setOnce'', JObj [
                     (''acq_channel_first'', JStr ''Facebook Ads''),
                     (''acq_campaign_first'', JNull),
                     (''acq_partner_first'', JNull),
                     (''acq_adset_first'', JNull),
                     (''acq_creative_first'', JNull),
                     (''acq_install_ts'', JNum 1700000000000)]),
                  (''$set'', JObj [
                     (''acq_channel_last'', JStr ''Facebook Ads''),
                     (''acq_campaign_last'', JNull),
                     (''acq_partner_last'', JNull),
                     (''acq_adset_last'', JNull),
                     (''acq_creative_last'', JNull),
                     (''acq_last_touch_ts'', JNum 1700000000000)])]),
               (''time'', JNum 1700000000000)],
         JObj [(''device_id'', JStr ''ABC123''), (''user_id'', JNull),
               (''event_type'', JStr ''Branch Attributed Install''),
               (''time'', JNum 1700000000000),
               (''insert_id'',
                  JStr ''0b3af04239f45c4e8417163eb91b317493ebb5e31921cfbc729fcf90f825bdec''),
               (''event_properties'', JObj [
                  (''install_type'', JStr ''install''),
                  (''branch_channel'', JStr ''Facebook Ads''),
                  (''branch_campaign'', JNull), (''branch_partner'', JNull),
                  (''branch_adset'', JNull), (''branch_creative'', JNull),
                  (''branch_feature'', JNull), (''branch_link_id'', JNull),
                  (''web_to_app'', JBool False)]),
               (''app_version'', JStr []), (''platform'', JStr ''iOS''),
               (''os_name'', JStr ''iOS'')]])]"

subsection \<open>Fields of the outbound records\<close>

text \<open>A value when it is a string, nothing otherwise.\<close>

fun string_only :: "json option \<Rightarrow> json option" where
  "string_only (Some (JStr s)) = Some (JStr s)"
| "string_only _ = None"

text \<open>The attribution properties of the first-touch group, those of the last-touch
  group and the attribution field each pair is taken from.\<close>

definition first_last_fields :: "(string \<times> string \<times> string) list" where
  "first_last_fields =
     [(''acq_channel_first'', ''acq_channel_last'', ''channel''),
      (''acq_campaign_first'', ''acq_campaign_last'', ''campaign''),
      (''acq_partner_first'', ''acq_partner_last'', ''ad_partner''),
      (''acq_adset_first'', ''acq_adset_last'', ''ad_set''),
      (''acq_creative_first'', ''acq_creative_last'', ''creative'')]"

text \<open>The attribution properties of the event and the fields they are taken from; the
  metadata properties of the event and the \<^verbatim>\<open>user_data\<close> fields they are taken from.\<close>

definition attribution_fields :: "(string \<times> string) list" where
  "attribution_fields =
     [(''branch_channel'', ''channel''), (''branch_campaign'', ''campaign''),
      (''branch_partner'', ''ad_partner''), (''branch_adset'', ''ad_set''),
      (''branch_creative'', ''creative''), (''branch_feature'', ''feature''),
      (''branch_link_id'', ''link_id'')]"

definition metadata_fields :: "(string \<times> string) list" where
  "metadata_fields =
     [(''app_version'', ''app_version''), (''os_name'', ''os''),
      (''os_version'', ''os_version''), (''device_model'', ''device_model'')]"

subsection \<open>Payloads with no usable timestamp\<close>



section \<open>Device-id extraction\<close>

lemma dropWhile_all_iff: "(\<forall>x \<in> set (dropWhile P xs). P x) \<longleftrightarrow> (\<forall>x \<in> set xs. P x)"
proof
  assume a: "\<forall>x \<in> set (dropWhile P xs). P x"
  have "dropWhile P xs = []"
  proof (rule ccontr)
    assume ne: "dropWhile P xs \<noteq> []"
    then have "\<not> P (hd (dropWhile P xs))" by (rule hd_dropWhile)
    moreover from ne have "hd (dropWhile P xs) \<in> set (dropWhile P xs)" by simp
    ultimately show False using a by blast
  qed
  then show "\<forall>x \<in> set xs. P x" by (simp add: dropWhile_eq_Nil_conv)
next
  assume "\<forall>x \<in> set xs. P x"
  then show "\<forall>x \<in> set (dropWhile P xs). P x" by (auto dest: set_dropWhileD)
qed

lemma trim_empty_iff: "trim s = [] \<longleftrightarrow> blank s"
  by (simp add: trim_def blank_def list_all_iff dropWhile_eq_Nil_conv dropWhile_all_iff)

lemma scan_keys_skip:
  assumes "\<forall>e \<in> set pre. map_of kvs (fst e) = Some (snd e)"
    and "\<forall>e \<in> set pre. \<not> is_id_entry e"
  shows "scan_keys (JObj kvs) (map fst pre @ rest) = scan_keys (JObj kvs) rest"
  using assms
proof (induction pre)
  case Nil
  then show ?case by simp
next
  case (Cons e pre)
  obtain k v where e: "e = (k, v)" by (cases e)
  from Cons.prems e have look: "get (JObj kvs) k = Some v" by (simp add: get_def)
  from Cons.prems e have no: "\<not> is_id_entry (k, v)" by simp
  from Cons have IH: "scan_keys (JObj kvs) (map fst pre @ rest) = scan_keys (JObj kvs) rest"
    by simp
  show ?case
  proof (cases v)
    case (JStr s)
    with no look IH e show ?thesis by (auto simp: trim_empty_iff)
  qed (use look IH e in auto)
qed

text \<open>
  C3. When the identity mapping \<^verbatim>\<open>user_data\<close> holds an identity entry, \<open>pickDeviceId\<close>
  returns the trimmed value of the first one in the order of the mapping's keys,
  whatever the letter case of the key, and that string is not empty.
\<close>

theorem pickDeviceId_first_identity:
  assumes ud: "get p ''user_data'' = Some (JObj (pre @ (k, JStr s) # post))"
    and dist: "distinct (map fst (pre @ (k, JStr s) # post))"
    and hit: "is_id_entry (k, JStr s)"
    and first: "\<forall>e \<in> set pre. \<not> is_id_entry e"
  shows "pickDeviceId t p = trim s \<and> pickDeviceId t p \<noteq> []"
proof -
  let ?kvs = "pre @ (k, JStr s) # post"
  have all: "\<forall>e \<in> set ?kvs. map_of ?kvs (fst e) = Some (snd e)"
    using dist by (metis map_of_is_SomeI prod.collapse)
  then have pre: "\<forall>e \<in> set pre. map_of ?kvs (fst e) = Some (snd e)" by simp
  from all have here: "get (JObj ?kvs) k = Some (JStr s)" by (simp add: get_def)
  have "scan_keys (JObj ?kvs) (map fst ?kvs) = scan_keys (JObj ?kvs) (k # map fst post)"
    using scan_keys_skip [OF pre first, of "k # map fst post"] by simp
  also have "\<dots> = Some (trim s)"
    using hit here by (simp add: trim_empty_iff)
  finally have "scan_keys (JObj ?kvs) (map fst ?kvs) = Some (trim s)" .
  moreover have "trim s \<noteq> []" using hit by (simp add: trim_empty_iff)
  ultimately show ?thesis
    using ud by (simp add: pickDeviceId_def Object_keys_def)
qed


theorem pickDeviceId_first_identity_witness:
  "get (JObj [(''user_data'', JObj ([(''os'', JStr ''iOS''), (''idfv'', JStr ''  '')]
          @ (''GAID'', JStr '' g-1 '') # [(''idfa'', JStr ''ABC'')]))]) ''user_data''
     = Some (JObj ([(''os'', JStr ''iOS''), (''idfv'', JStr ''  '')]
          @ (''GAID'', JStr '' g-1 '') # [(''idfa'', JStr ''ABC'')]))
   \<and> distinct (map fst ([(''os'', JStr ''iOS''), (''idfv'', JStr ''  '')]
          @ (''GAID'', JStr '' g-1 '') # [(''idfa'', JStr ''ABC'')]))
   \<and> is_id_entry (''GAID'', JStr '' g-1 '')
   \<and> \<not> is_id_entry (''os'', JStr ''iOS'') \<and> \<not> is_id_entry (''idfv'', JStr ''  '')
   \<and> pickDeviceId 0 (JObj [(''user_data'', JObj ([(''os'', JStr ''iOS''), (''idfv'', JStr ''  '')]
          @ (''GAID'', JStr '' g-1 '') # [(''idfa'', JStr ''ABC'')]))]) = ''g-1''"
proof -
  let ?pre = "[(''os'', JStr ''iOS''), (''idfv'', JStr ''  '')]"
  let ?post = "[(''idfa'', JStr ''ABC'')]"
  let ?p = "JObj [(''user_data'', JObj (?pre @ (''GAID'', JStr '' g-1 '') # ?post))]"
  have h1: "get ?p ''user_data'' = Some (JObj (?pre @ (''GAID'', JStr '' g-1 '') # ?post))"
    by (simp add: get_def)
  have h2: "distinct (map fst (?pre @ (''GAID'', JStr '' g-1 '') # ?post))"
    by simp
  have h3: "is_id_entry (''GAID'', JStr '' g-1 '')"
    by (simp add: toLowerCase_def lower_char_def upper_letters_def lower_letters_def
        recognized_def blank_def is_ws_def)
  have h4: "\<forall>e \<in> set ?pre. \<not> is_id_entry e"
    by (simp add: toLowerCase_def lower_char_def upper_letters_def lower_letters_def
        recognized_def blank_def is_ws_def)
  have t: "trim '' g-1 '' = ''g-1''"
    by (simp add: trim_def is_ws_def)
  from pickDeviceId_first_identity [OF h1 h2 h3 h4, of 0] t h1 h2 h3 h4
  show ?thesis by simp
qed

section \<open>Event-type normalization\<close>

lemma str_includes_sublist: "str_includes hay needle \<longleftrightarrow> sublist needle hay"
proof (induction hay)
  case Nil
  then show ?case by auto
next
  case (Cons c cs)
  have "take (length needle) (c # cs) = needle \<longleftrightarrow> prefix needle (c # cs)"
    by (metis append_eq_conv_conj prefix_def)
  then show ?case
    using Cons by (auto simp: sublist_Cons_right simp del: take_Suc_Cons)
qed

lemmas letter_defs = toUpperCase_def toLowerCase_def upper_char_def lower_char_def
  upper_letters_def lower_letters_def

text \<open>
  C4. When the event name is a string, \<open>normalizeEventType\<close> upper-cases it and looks for
  \<^verbatim>\<open>REINSTALL\<close>, then \<^verbatim>\<open>INSTALL\<close>, then \<^verbatim>\<open>OPEN\<close> as a substring, giving reinstall,
  install or open with their labels; otherwise the kind is other and the label is the
  upper-cased name, or \<^verbatim>\<open>Branch Event\<close> for the empty name. A name holding both
  \<^verbatim>\<open>REINSTALL\<close> and \<^verbatim>\<open>INSTALL\<close> is a reinstall.
\<close>

theorem normalizeEventType_priority:
  assumes "event_name p = Some (JStr s)"
  shows "normalizeEventType p = Inr
           (if sublist ''REINSTALL'' (toUpperCase s) then (Reinstall, ''Branch Reinstall'')
            else if sublist ''INSTALL'' (toUpperCase s) then (Install, ''Branch Attributed Install'')
            else if sublist ''OPEN'' (toUpperCase s) then (Open, ''Branch Open'')
            else (Other, if s = [] then ''Branch Event'' else toUpperCase s))
         \<and> (sublist ''REINSTALL'' (toUpperCase s) \<and> sublist ''INSTALL'' (toUpperCase s)
              \<longrightarrow> normalizeEventType p = Inr (Reinstall, ''Branch Reinstall''))"
  using assms
  by (simp add: normalizeEventType_def classify_def str_includes_sublist toUpperCase_def)

theorem normalizeEventType_priority_witness:
  "event_name (JObj [(''name'', JStr ''reinstall_and_install'')]) = Some (JStr ''reinstall_and_install'')
   \<and> sublist ''REINSTALL'' (toUpperCase ''reinstall_and_install'')
   \<and> sublist ''INSTALL'' (toUpperCase ''reinstall_and_install'')
   \<and> normalizeEventType (JObj [(''name'', JStr ''reinstall_and_install'')])
       = Inr (Reinstall, ''Branch Reinstall'')"
proof -
  have h: "event_name (JObj [(''name'', JStr ''reinstall_and_install'')])
             = Some (JStr ''reinstall_and_install'')"
    by (simp add: event_name_def get_def js_or_def)
  have u: "toUpperCase ''reinstall_and_install'' = ''REINSTALL_AND_INSTALL''"
    by (simp add: letter_defs)
  have a: "sublist ''REINSTALL'' ''REINSTALL_AND_INSTALL''"
    by (simp add: str_includes_sublist [symmetric])
  have b: "sublist ''INSTALL'' ''REINSTALL_AND_INSTALL''"
    by (simp add: str_includes_sublist [symmetric])
  from normalizeEventType_priority [OF h] h u a b show ?thesis by simp
qed

text \<open>An event name that is not a string makes the normalization throw.\<close>

lemma normalizeEventType_throws:
  "normalizeEventType (JObj [(''name'', JNum 5)]) = Inl (TypeError ''toUpperCase is not a function'')"
  by (simp add: normalizeEventType_def event_name_def get_def js_or_def)

section \<open>Timestamp coercion\<close>





text \<open>The handler answers such a timestamp with its generic failure.\<close>

lemma compose_throws_on_timestamp:
  "compose cfg B (JObj [(''user_data'', JObj [(''idfa'', JStr ''ABC123'')]),
                        (''timestamp'', JObj [(''toString'', JNum 1)])])
     = Inl (TypeError ''Cannot convert object to primitive value'')"
proof -
  let ?p = "JObj [(''user_data'', JObj [(''idfa'', JStr ''ABC123'')]),
                  (''timestamp'', JObj [(''toString'', JNum 1)])]"
  have d: "pickDeviceId (now B) ?p = ''ABC123''"
    by (simp add: pickDeviceId_def get_def Object_keys_def letter_defs recognized_def
        trim_def is_ws_def)
  have w: "when_of B ?p = Inl (TypeError ''Cannot convert object to primitive value'')"
    by (simp add: when_of_def get_def js_or_def js_toString_def)
  show ?thesis by (simp add: compose_def d w)
qed

section \<open>Flattening the payload\<close>

lemma map_of_assign_other: "k \<notin> fst ` set src \<Longrightarrow> map_of (assign t src) k = map_of t k"
  unfolding assign_def
  by (induction src arbitrary: t) (auto simp: update_conv')

lemma map_of_assign:
  "distinct (map fst src) \<Longrightarrow>
   map_of (assign t src) k = (case map_of src k of Some v \<Rightarrow> Some v | None \<Rightarrow> map_of t k)"
proof (induction src arbitrary: t)
  case Nil
  then show ?case by (simp add: assign_def)
next
  case (Cons e src)
  obtain a b where e: "e = (a, b)" by (cases e)
  from Cons.prems e have notin: "a \<notin> fst ` set src" and dist: "distinct (map fst src)"
    by auto
  have step: "assign t (e # src) = assign (AList.update a b t) src"
    by (simp add: assign_def e)
  show ?case
  proof (cases "k = a")
    case True
    with notin have "map_of (assign (AList.update a b t) src) k = map_of (AList.update a b t) k"
      by (simp add: map_of_assign_other)
    with True e step show ?thesis by (simp add: update_conv')
  next
    case False
    with Cons.IH [OF dist, of "AList.update a b t"] e step show ?thesis
      by (simp add: update_conv' split: option.splits)
  qed
qed

lemma show_nat_digits: "set (show_nat n) \<subseteq> set ''0123456789''"
proof (induction n rule: show_nat.induct)
  case (1 n)
  have d: "digit_char m \<in> set ''0123456789''" for m
  proof -
    have "m mod 10 < length ''0123456789''" by simp
    then show ?thesis unfolding digit_char_def by (rule nth_mem)
  qed
  show ?case
  proof (cases "n < 10")
    case True
    then show ?thesis using d [of n] by (subst show_nat.simps) simp
  next
    case False
    then show ?thesis using 1 d [of n] by (subst show_nat.simps) simp
  qed
qed


lemma index_key_digits: "k \<in> set (index_keys n) \<Longrightarrow> set k \<subseteq> set ''0123456789''"
  by (auto simp: index_keys_def dest: subsetD [OF show_nat_digits])

lemma field_not_index: "k \<in> set fields_read \<Longrightarrow> k \<notin> set (index_keys n)"
  by (auto simp: fields_read_def dest!: index_key_digits)

lemma compose_cong:
  assumes "\<forall>k \<in> set fields_read. get p k = get p' k"
  shows "compose cfg B p = compose cfg B p'"
proof -
  from assms have eqs: "get p ''user_data'' = get p' ''user_data''"
      "get p ''last_attributed_touch_data'' = get p' ''last_attributed_touch_data''"
      "get p ''timestamp_millis'' = get p' ''timestamp_millis''"
      "get p ''timestamp'' = get p' ''timestamp''"
      "get p ''name'' = get p' ''name''" "get p ''event'' = get p' ''event''"
      "get p ''id'' = get p' ''id''"
    by (simp_all add: fields_read_def)
  have 1: "pickDeviceId t p = pickDeviceId t p'" for t
    by (simp add: pickDeviceId_def eqs)
  have 2: "latd_of p = latd_of p'" by (simp add: latd_of_def eqs)
  have 3: "when_of B p = when_of B p'" by (simp add: when_of_def eqs)
  have 4: "normalizeEventType p = normalizeEventType p'"
    by (simp add: normalizeEventType_def event_name_def eqs)
  have 5: "buildInsertId p w l = buildInsertId p' w l" for w l
    by (simp add: buildInsertId_def seed_def link_id_def eqs)
  have 6: "branchEvent d la ty l w i p = branchEvent d la ty l w i p'" for d la ty l w i
    by (simp add: branchEvent_def eqs)
  show ?thesis
    unfolding compose_def 1 2 3 4 5 6 by (rule refl)
qed

lemma process2_cong:
  assumes "\<forall>k \<in> set fields_read. get p k = get p' k"
  shows "process2 cfg B p = process2 cfg B p'"
proof -
  from assms have eqs: "get p ''user_data'' = get p' ''user_data''"
      "get p ''last_attributed_touch_data'' = get p' ''last_attributed_touch_data''"
      "get p ''timestamp_millis'' = get p' ''timestamp_millis''"
      "get p ''timestamp'' = get p' ''timestamp''"
      "get p ''name'' = get p' ''name''" "get p ''event'' = get p' ''event''"
      "get p ''id'' = get p' ''id''"
    by (simp_all add: fields_read_def)
  have 1: "pickDeviceId2 p = pickDeviceId2 p'"
    by (simp add: pickDeviceId2_def eqs)
  have 2: "latd_of p = latd_of p'" by (simp add: latd_of_def eqs)
  have 3: "when_of B p = when_of B p'" by (simp add: when_of_def eqs)
  have 4: "normalizeEventType p = normalizeEventType p'"
    by (simp add: normalizeEventType_def event_name_def eqs)
  have 5: "buildInsertId p w l = buildInsertId p' w l" for w l
    by (simp add: buildInsertId_def seed_def link_id_def eqs)
  have 6: "eventBody2 cfg d la ty l w i p = eventBody2 cfg d la ty l w i p'" for d la ty l w i
    by (simp add: eventBody2_def eqs)
  show ?thesis
    unfolding process2_def 1 2 3 4 5 6 by (rule refl)
qed

lemma flatten_not_mapping:
  assumes nomap: "\<forall>inner. get payload ''data'' \<noteq> Some (JObj inner)"
    and dist: "distinct (map fst (own_props payload))"
    and k: "k \<in> set fields_read"
  shows "get (flatten payload) k = get payload k"
proof (cases "typeof_object (get payload ''data'')")
  case False
  then show ?thesis by (simp add: flatten_def)
next
  case True
  have copy: "map_of (assign [] (own_props payload)) k = get payload k"
    using map_of_assign [OF dist, of "[]" k] by (simp add: get_def split: option.splits)
  from True nomap consider "get payload ''data'' = Some JNull"
    | xs where "get payload ''data'' = Some (JArr xs)"
    by (cases "get payload ''data''" rule: typeof_object.cases) auto
  then show ?thesis
  proof cases
    case 1
    then show ?thesis using copy by (simp add: flatten_def get_def assign_def)
  next
    case (2 xs)
    have "k \<notin> fst ` set (zip (index_keys (length xs)) xs)"
      using field_not_index [OF k, of "length xs"] by (auto dest: set_zip_leftD)
    then have "map_of (assign (assign [] (own_props payload)) (zip (index_keys (length xs)) xs)) k
                 = map_of (assign [] (own_props payload)) k"
      by (rule map_of_assign_other)
    with 2 copy show ?thesis by (simp add: flatten_def get_def)
  qed
qed

text \<open>
  C6. When \<^verbatim>\<open>data\<close> holds an object, the handler works on the merge of the payload
  with it: a property is read from the inner object when it has it, and from the
  outer one otherwise. When \<^verbatim>\<open>data\<close> holds no object, the outcome is that of the
  payload as it came. The handler composes its records from \<open>flatten\<close> of the body.
\<close>

theorem flatten_merges_data:
  "(get payload ''data'' = Some (JObj inner) \<and> distinct (map fst inner)
      \<and> distinct (map fst (own_props payload))
    \<longrightarrow> get (flatten payload) k
          = (case get (JObj inner) k of Some v \<Rightarrow> Some v | None \<Rightarrow> get payload k))
   \<and> ((\<forall>inner. get payload ''data'' \<noteq> Some (JObj inner))
      \<and> distinct (map fst (own_props payload))
    \<longrightarrow> compose cfg B (flatten payload) = compose cfg B payload
        \<and> process2 cfg B (flatten payload) = process2 cfg B payload)"
proof (intro conjI impI)
  assume a: "get payload ''data'' = Some (JObj inner) \<and> distinct (map fst inner)
      \<and> distinct (map fst (own_props payload))"
  then have "map_of (assign [] (own_props payload)) k = get payload k"
    using map_of_assign [of "own_props payload" "[]" k] by (simp add: get_def split: option.splits)
  with a show "get (flatten payload) k
          = (case get (JObj inner) k of Some v \<Rightarrow> Some v | None \<Rightarrow> get payload k)"
    using map_of_assign [of inner "assign [] (own_props payload)" k]
    by (simp add: flatten_def get_def split: option.splits)
next
  assume b: "(\<forall>inner. get payload ''data'' \<noteq> Some (JObj inner))
      \<and> distinct (map fst (own_props payload))"
  then have "\<forall>k \<in> set fields_read. get (flatten payload) k = get payload k"
    using flatten_not_mapping by blast
  then show "compose cfg B (flatten payload) = compose cfg B payload"
    and "process2 cfg B (flatten payload) = process2 cfg B payload"
    by (rule compose_cong, rule process2_cong)
qed

theorem flatten_merges_data_witness:
  "get (flatten (JObj [(''id'', JStr ''outer''), (''event'', JStr ''OPEN''),
                       (''data'', JObj [(''id'', JStr ''inner'')])])) ''id'' = Some (JStr ''inner'')
   \<and> get (flatten (JObj [(''id'', JStr ''outer''), (''event'', JStr ''OPEN''),
                       (''data'', JObj [(''id'', JStr ''inner'')])])) ''event'' = Some (JStr ''OPEN'')
   \<and> compose example_config example_runtime
         (flatten (JObj [(''name'', JStr ''OPEN''), (''data'', JArr [JStr ''x''])]))
       = compose example_config example_runtime
           (JObj [(''name'', JStr ''OPEN''), (''data'', JArr [JStr ''x''])])"
proof -
  let ?p = "JObj [(''id'', JStr ''outer''), (''event'', JStr ''OPEN''),
                  (''data'', JObj [(''id'', JStr ''inner'')])]"
  let ?q = "JObj [(''name'', JStr ''OPEN''), (''data'', JArr [JStr ''x''])]"
  have p: "get ?p ''data'' = Some (JObj [(''id'', JStr ''inner'')])
           \<and> distinct (map fst [(''id'', JStr ''inner'')]) \<and> distinct (map fst (own_props ?p))"
    by (simp add: get_def)
  have q: "(\<forall>inner. get ?q ''data'' \<noteq> Some (JObj inner)) \<and> distinct (map fst (own_props ?q))"
    by (simp add: get_def)
  from p flatten_merges_data [where payload = ?p and inner = "[(''id'', JStr ''inner'')]" and k = "''id''"]
  have 1: "get (flatten ?p) ''id'' = Some (JStr ''inner'')"
    by (simp add: get_def)
  from p flatten_merges_data [where payload = ?p and inner = "[(''id'', JStr ''inner'')]" and k = "''event''"]
  have 2: "get (flatten ?p) ''event'' = Some (JStr ''OPEN'')"
    by (simp add: get_def)
  from q flatten_merges_data [where payload = ?q and cfg = example_config and B = example_runtime]
  have 3: "compose example_config example_runtime (flatten ?q)
             = compose example_config example_runtime ?q"
    by blast
  from 1 2 3 show ?thesis by simp
qed

section \<open>Idempotency key\<close>

subsection \<open>The digest has 64 hexadecimal digits\<close>

lemma length_round: "length st = 8 \<Longrightarrow> length (round st kw) = 8"
  by (cases kw) (auto simp: numeral_eq_Suc length_Suc_conv Let_def)

lemma length_foldl_round: "length st = 8 \<Longrightarrow> length (foldl round st kws) = 8"
  by (induction kws arbitrary: st) (simp_all add: length_round)

lemma length_compress: "length hs = 8 \<Longrightarrow> length (compress hs block) = 8"
  by (simp add: compress_def Let_def length_foldl_round)

lemma length_foldl_compress: "length hs = 8 \<Longrightarrow> length (foldl compress hs blocks) = 8"
  by (induction blocks arbitrary: hs) (simp_all add: length_compress)

lemma length_sha256: "length (sha256 m) = 8"
  by (simp add: sha256_def length_foldl_compress H256_def)

lemma hex_digit_in: "hex_digit d \<in> set ''0123456789abcdef''"
proof -
  have "d mod 16 < length ''0123456789abcdef''" by simp
  then show ?thesis unfolding hex_digit_def by (rule nth_mem)
qed

lemma length_hex32: "length (hex32 w) = 8"
  by (simp add: hex32_def)

lemma set_hex32: "set (hex32 w) \<subseteq> set ''0123456789abcdef''"
  using hex_digit_in by (auto simp: hex32_def simp del: set_simps)

lemma length_concat_hex32: "length (concat (map hex32 ws)) = 8 * length ws"
  by (induction ws) (simp_all add: length_hex32)

lemma length_sha256_hex: "length (sha256_hex s) = 64"
  by (simp add: sha256_hex_def length_concat_hex32 length_sha256)

lemma set_sha256_hex: "set (sha256_hex s) \<subseteq> set ''0123456789abcdef''"
  using set_hex32 by (auto simp: sha256_hex_def simp del: set_simps)

text \<open>The hashed string and the digest of scenario A, computed in the logic.\<close>

lemma seed_A:
  \<open>seed scenario_A 1700000000000 ''Branch Attributed Install''
     = ''{"name":"INSTALL","when":1700000000000,"label":"Branch Attributed Install"}''\<close>
  by (simp add: seed_def scenario_A_def get_def link_id_def obj_def quote_def quote_char_def
      show_int_def show_nat.simps digit_char_def)

lemma sha_A:
  \<open>sha256_hex ''{"name":"INSTALL","when":1700000000000,"label":"Branch Attributed Install"}''
     = ''0b3af04239f45c4e8417163eb91b317493ebb5e31921cfbc729fcf90f825bdec''\<close>
  by code_simp

lemma insert_id_A:
  "buildInsertId scenario_A 1700000000000 ''Branch Attributed Install''
     = ''0b3af04239f45c4e8417163eb91b317493ebb5e31921cfbc729fcf90f825bdec''"
  by (simp add: buildInsertId_def seed_A sha_A)

text \<open>
  C2. \<open>buildInsertId\<close> is a function of the event id, the two event-name fields, the
  normalized timestamp, the label and the attribution link id: two payloads that agree
  on them get the same key. The key always has 64 characters, all hexadecimal digits.
\<close>

theorem buildInsertId_deterministic:
  "(get p ''id'' = get q ''id'' \<and> get p ''name'' = get q ''name''
      \<and> get p ''event'' = get q ''event'' \<and> link_id p = link_id q
    \<longrightarrow> buildInsertId p w label = buildInsertId q w label)
   \<and> length (buildInsertId p w label) = 64
   \<and> set (buildInsertId p w label) \<subseteq> set ''0123456789abcdef''"
proof (intro conjI impI)
  assume "get p ''id'' = get q ''id'' \<and> get p ''name'' = get q ''name''
      \<and> get p ''event'' = get q ''event'' \<and> link_id p = link_id q"
  then show "buildInsertId p w label = buildInsertId q w label"
    by (simp add: buildInsertId_def seed_def)
next
  show "length (buildInsertId p w label) = 64"
    by (simp add: buildInsertId_def length_sha256_hex)
next
  have "set (take 64 (sha256_hex (seed p w label))) \<subseteq> set (sha256_hex (seed p w label))"
    by (rule set_take_subset)
  also have "\<dots> \<subseteq> set ''0123456789abcdef''"
    by (rule set_sha256_hex)
  finally show "set (buildInsertId p w label) \<subseteq> set ''0123456789abcdef''"
    unfolding buildInsertId_def .
qed

theorem buildInsertId_deterministic_witness:
  "buildInsertId scenario_A 1700000000000 ''Branch Attributed Install''
     = buildInsertId (JObj [(''name'', JStr ''INSTALL''), (''user_data'', JObj [(''idfv'', JStr ''XYZ'')])])
         1700000000000 ''Branch Attributed Install''
   \<and> length (buildInsertId scenario_A 1700000000000 ''Branch Attributed Install'') = 64"
proof -
  let ?q = "JObj [(''name'', JStr ''INSTALL''), (''user_data'', JObj [(''idfv'', JStr ''XYZ'')])]"
  have "get scenario_A ''id'' = get ?q ''id'' \<and> get scenario_A ''name'' = get ?q ''name''
      \<and> get scenario_A ''event'' = get ?q ''event'' \<and> link_id scenario_A = link_id ?q"
    by (simp add: scenario_A_def get_def link_id_def)
  with buildInsertId_deterministic [where p = scenario_A and q = ?q and w = 1700000000000
      and label = "''Branch Attributed Install''"]
  show ?thesis by blast
qed

subsection \<open>Printing integers is injective\<close>





subsection \<open>The instant is part of the hashed string\<close>

















section \<open>Outbound records\<close>

subsection \<open>Scenario A, composed in the logic\<close>

lemma pick_A: "pickDeviceId t scenario_A = ''ABC123''"
  by (simp add: pickDeviceId_def scenario_A_def get_def Object_keys_def letter_defs
      recognized_def trim_def is_ws_def)

lemma when_A: "when_of example_runtime scenario_A = Inr 1700000000000"
  by (simp add: when_of_def scenario_A_def get_def js_or_def seconds_or_millis_def)

lemma type_A: "normalizeEventType scenario_A = Inr (Install, ''Branch Attributed Install'')"
  by (simp add: normalizeEventType_def event_name_def scenario_A_def get_def js_or_def
      classify_def letter_defs)

lemma latd_A: "latd_of scenario_A = JObj [(''channel'', JStr ''Facebook Ads'')]"
  by (simp add: latd_of_def scenario_A_def get_def)

lemma branchEvent_A:
  "branchEvent ''ABC123'' (JObj [(''channel'', JStr ''Facebook Ads'')]) Install
       ''Branch Attributed Install'' 1700000000000
       ''0b3af04239f45c4e8417163eb91b317493ebb5e31921cfbc729fcf90f825bdec'' scenario_A
     = Inr (case scenario_A_out of JObj [_, (_, JArr [_, be])] \<Rightarrow> be)"
  by (simp add: branchEvent_def scenario_A_def scenario_A_out_def get_def string_field_def
      obj_def event_properties_def platform_def letter_defs)

lemma compose_A: "compose example_config example_runtime scenario_A = Inr (Some scenario_A_out)"
  by (simp add: compose_def pick_A when_A type_A latd_A insert_id_A branchEvent_A)
    (simp add: scenario_A_out_def combinedPayload_def identifyEvent_def identification_def
      first_touch_def last_touch_def obj_def get_def example_config_def)

subsection \<open>Reading the records\<close>

lemma present_keys: "fst ` set (present fs) \<subseteq> fst ` set fs"
  by (induction fs rule: present.induct) auto

lemma map_of_present:
  "distinct (map fst fs) \<Longrightarrow>
   map_of (present fs) k = (case map_of fs k of Some (Some v) \<Rightarrow> Some v | _ \<Rightarrow> None)"
proof (induction fs rule: present.induct)
  case 1
  then show ?case by simp
next
  case (2 k' fs)
  then have "k' \<notin> fst ` set (present fs)" using present_keys [of fs] by auto
  then have "map_of (present fs) k' = None" by (simp add: map_of_eq_None_iff)
  moreover from 2 have "map_of fs k' = None" by (simp add: map_of_eq_None_iff)
  ultimately show ?case using 2 by simp
next
  case (3 k' v fs)
  then show ?case by simp
qed

lemma get_obj:
  "distinct (map fst fs) \<Longrightarrow>
   get (obj fs) k = (case map_of fs k of Some (Some v) \<Rightarrow> Some v | _ \<Rightarrow> None)"
  by (simp add: get_def obj_def map_of_present)

lemma show_nat_0: "show_nat 0 = ''0''" and show_nat_1: "show_nat (Suc 0) = ''1''"
  by (simp_all add: show_nat.simps digit_char_def)

lemma get_JArr_0: "get (JArr (x # xs)) ''0'' = Some x"
  by (simp add: get_def index_keys_def upt_rec [of 0] show_nat_0)

lemma get_JArr_1: "get (JArr (x # y # xs)) ''1'' = Some y"
proof -
  have "[0..<Suc (Suc (length xs))] = 0 # Suc 0 # [Suc (Suc 0)..<Suc (Suc (length xs))]"
    by (simp add: upt_rec)
  then show ?thesis
    by (simp add: get_def index_keys_def show_nat_0 show_nat_1)
qed

lemma js_in_Inr: "js_in k u = Inr b \<Longrightarrow> b = (get u k \<noteq> None)"
proof (cases u)
  case (JObj kvs)
  assume "js_in k u = Inr b"
  with JObj show ?thesis by (auto simp: get_def map_of_eq_None_iff)
next
  case (JArr xs)
  assume "js_in k u = Inr b"
  moreover have "length (index_keys (length xs)) = length xs" by (simp add: index_keys_def)
  ultimately show ?thesis using JArr by (auto simp: get_def map_of_zip_is_None)
qed auto

lemma string_field_Inr:
  assumes "string_field k u = Inr x"
  shows "x = string_only (get u k)"
proof -
  from assms obtain b where b: "js_in k u = Inr b"
    and x: "x = (if b then (case get u k of Some (JStr s) \<Rightarrow> Some (JStr s) | _ \<Rightarrow> None) else None)"
    by (auto simp: string_field_def split: sum.splits)
  from js_in_Inr [OF b] x show ?thesis
    by (cases "get u k" rule: string_only.cases) auto
qed

lemma branchEvent_InrD:
  assumes "branchEvent d latd ty l w i p = Inr be"
  shows "be = obj [(''device_id'', Some (JStr d)),
                  (''user_id'', Some JNull),
                  (''event_type'', Some (JStr l)),
                  (''time'', Some (JNum w)),
                  (''insert_id'', Some (JStr i)),
                  (''event_properties'', Some (event_properties latd ty)),
                  (''app_version'', string_only (get (nullish_obj (get p ''user_data'')) ''app_version'')),
                  (''platform'', Some (JStr (platform (string_only (get (nullish_obj (get p ''user_data'')) ''os''))))),
                  (''os_name'', string_only (get (nullish_obj (get p ''user_data'')) ''os'')),
                  (''os_version'', string_only (get (nullish_obj (get p ''user_data'')) ''os_version'')),
                  (''device_model'', string_only (get (nullish_obj (get p ''user_data'')) ''device_model''))]"
  using assms
  by (auto simp: branchEvent_def Let_def split: sum.splits dest!: string_field_Inr)

lemma compose_SomeD:
  assumes "compose cfg B p = Inr (Some out)"
  shows "\<exists>w ty l be. when_of B p = Inr w \<and> normalizeEventType p = Inr (ty, l)
           \<and> branchEvent (pickDeviceId (now B) p) (latd_of p) ty l w
                (buildInsertId p w l) p = Inr be
           \<and> out = combinedPayload cfg
                (identifyEvent (pickDeviceId (now B) p) (latd_of p) ty w) be"
  using assms
  by (auto simp: compose_def Let_def split: if_splits sum.splits prod.splits)

lemma get_events:
  "get (combinedPayload cfg ie be) ''events'' = Some (JArr [ie, be])"
  by (cases "AMPLITUDE_KEY cfg") (simp_all add: combinedPayload_def obj_def get_def)

lemma path_identify:
  "path (combinedPayload cfg (identifyEvent d latd ty w) be) (''events'' # ''0'' # ''user_properties'' # ks)
     = path (obj [(''$setOnce'', Some (first_touch latd ty w)), (''$set'', Some (last_touch latd w))]) ks"
  by (simp add: get_events get_JArr_0 identifyEvent_def identification_def get_obj)

lemma path_event:
  "path (combinedPayload cfg ie be) (''events'' # ''1'' # ks) = path be ks"
  by (simp add: get_events get_JArr_1)

text \<open>The event carries the key of \<open>buildInsertId\<close>.\<close>

lemma insert_id_in_event:
  assumes "compose cfg B p = Inr (Some out)" and "normalizeEventType p = Inr (type, label)"
  shows "\<exists>w. when_of B p = Inr w
           \<and> path out [''events'', ''1'', ''insert_id''] = Some (JStr (buildInsertId p w label))"
proof -
  from compose_SomeD [OF assms(1)] assms(2) obtain w be where
    w: "when_of B p = Inr w"
    and be: "branchEvent (pickDeviceId (now B) p) (latd_of p) type label w
                (buildInsertId p w label) p = Inr be"
    and out: "out = combinedPayload cfg
            (identifyEvent (pickDeviceId (now B) p) (latd_of p) type w) be"
    by auto
  have "path out [''events'', ''1'', ''insert_id''] = Some (JStr (buildInsertId p w label))"
    unfolding out path_event branchEvent_InrD [OF be]
    by (simp add: get_obj)
  with w show ?thesis by blast
qed

text \<open>
  C7. In the identity record the first-touch group \<^verbatim>\<open>$setOnce\<close> holds the install
  timestamp exactly when the normalized kind is install, and then it is the normalized
  timestamp; the last-touch group \<^verbatim>\<open>$set\<close> always holds the last-touch timestamp, equal
  to the normalized timestamp; both groups carry channel, campaign, partner, ad-set and
  creative with the same values.
\<close>

theorem identity_record_groups:
  assumes "compose cfg B p = Inr (Some out)" and "normalizeEventType p = Inr (type, label)"
  shows "\<exists>w. when_of B p = Inr w
       \<and> (path out [''events'', ''0'', ''user_properties'', ''$setOnce'', ''acq_install_ts''] \<noteq> None
            \<longleftrightarrow> type = Install)
       \<and> (type = Install \<longrightarrow>
            path out [''events'', ''0'', ''user_properties'', ''$setOnce'', ''acq_install_ts'']
              = Some (JNum w))
       \<and> path out [''events'', ''0'', ''user_properties'', ''$set'', ''acq_last_touch_ts'']
            = Some (JNum w)
       \<and> (\<forall>(first, last, src) \<in> set first_last_fields.
            path out [''events'', ''0'', ''user_properties'', ''$setOnce'', first]
              = Some (nullish (get (latd_of p) src))
          \<and> path out [''events'', ''0'', ''user_properties'', ''$set'', last]
              = Some (nullish (get (latd_of p) src)))"
proof -
  from compose_SomeD [OF assms(1)] assms(2) obtain w be where
    w: "when_of B p = Inr w"
    and out: "out = combinedPayload cfg
            (identifyEvent (pickDeviceId (now B) p) (latd_of p) type w) be"
    by auto
  have "(path out [''events'', ''0'', ''user_properties'', ''$setOnce'', ''acq_install_ts''] \<noteq> None
            \<longleftrightarrow> type = Install)
       \<and> (type = Install \<longrightarrow>
            path out [''events'', ''0'', ''user_properties'', ''$setOnce'', ''acq_install_ts'']
              = Some (JNum w))
       \<and> path out [''events'', ''0'', ''user_properties'', ''$set'', ''acq_last_touch_ts'']
            = Some (JNum w)
       \<and> (\<forall>(first, last, src) \<in> set first_last_fields.
            path out [''events'', ''0'', ''user_properties'', ''$setOnce'', first]
              = Some (nullish (get (latd_of p) src))
          \<and> path out [''events'', ''0'', ''user_properties'', ''$set'', last]
              = Some (nullish (get (latd_of p) src)))"
    unfolding out path_identify
    by (simp add: first_last_fields_def get_obj first_touch_def last_touch_def)
  with w show ?thesis by blast
qed

theorem identity_record_groups_witness:
  "compose example_config example_runtime scenario_A = Inr (Some scenario_A_out)
   \<and> normalizeEventType scenario_A = Inr (Install, ''Branch Attributed Install'')
   \<and> when_of example_runtime scenario_A = Inr 1700000000000
   \<and> path scenario_A_out [''events'', ''0'', ''user_properties'', ''$setOnce'', ''acq_install_ts'']
       = Some (JNum 1700000000000)
   \<and> path scenario_A_out [''events'', ''0'', ''user_properties'', ''$set'', ''acq_last_touch_ts'']
       = Some (JNum 1700000000000)
   \<and> path scenario_A_out [''events'', ''0'', ''user_properties'', ''$setOnce'', ''acq_channel_first'']
       = Some (JStr ''Facebook Ads'')
   \<and> path scenario_A_out [''events'', ''0'', ''user_properties'', ''$set'', ''acq_channel_last'']
       = Some (JStr ''Facebook Ads'')
   \<and> path scenario_A_out [''events'', ''0'', ''user_properties'', ''$set'', ''acq_campaign_last'']
       = Some JNull"
  using identity_record_groups [OF compose_A type_A] compose_A type_A when_A
  by (auto simp: latd_A first_last_fields_def get_def)

text \<open>
  In the attribution event each of channel, campaign, partner, ad-set, creative,
  feature and link id is sent, as \<^verbatim>\<open>null\<close> when the source has none; each of app
  version, OS name, OS version and device model is sent exactly when the source holds
  a string for it, and is left out otherwise.
\<close>

lemma attribution_event_fields:
  assumes "compose cfg B p = Inr (Some out)"
  shows "(\<forall>(dst, src) \<in> set attribution_fields.
            path out [''events'', ''1'', ''event_properties'', dst]
              = Some (nullish (get (latd_of p) src))
          \<and> (get (latd_of p) src = None \<longrightarrow>
               path out [''events'', ''1'', ''event_properties'', dst] = Some JNull))
       \<and> (\<forall>(dst, src) \<in> set metadata_fields.
            path out [''events'', ''1'', dst]
              = string_only (get (nullish_obj (get p ''user_data'')) src))"
proof -
  from compose_SomeD [OF assms] obtain w ty l be where
    be: "branchEvent (pickDeviceId (now B) p) (latd_of p) ty l w
                (buildInsertId p w l) p = Inr be"
    and out: "out = combinedPayload cfg
            (identifyEvent (pickDeviceId (now B) p) (latd_of p) ty w) be"
    by auto
  show ?thesis
    unfolding out path_event branchEvent_InrD [OF be]
    by (simp add: attribution_fields_def metadata_fields_def get_obj event_properties_def
        split: option.splits)
qed

lemma attribution_event_fields_scenario_A:
  "path scenario_A_out [''events'', ''1'', ''event_properties'', ''branch_channel'']
       = Some (JStr ''Facebook Ads'')
   \<and> path scenario_A_out [''events'', ''1'', ''event_properties'', ''branch_link_id'']
       = Some JNull
   \<and> path scenario_A_out [''events'', ''1'', ''app_version''] = Some (JStr [])
   \<and> path scenario_A_out [''events'', ''1'', ''os_name''] = Some (JStr ''iOS'')
   \<and> path scenario_A_out [''events'', ''1'', ''os_version''] = None
   \<and> path scenario_A_out [''events'', ''1'', ''device_model''] = None"
proof -
  have ud: "nullish_obj (get scenario_A ''user_data'')
              = JObj [(''idfa'', JStr ''ABC123''), (''os'', JStr ''iOS''),
                      (''os_version'', JNum 17), (''app_version'', JStr [])]"
    by (simp add: scenario_A_def get_def)
  from attribution_event_fields [OF compose_A] show ?thesis
    unfolding latd_A ud attribution_fields_def metadata_fields_def
    by (simp add: get_def)
qed

section \<open>Delivery\<close>

text \<open>
  C9. When the downstream call answers with a status outside 200..299, the invocation
  answers 500, which makes the sender retry, with the error \<^verbatim>\<open>event_failed\<close>, the
  downstream status and the downstream body.
\<close>

theorem delivery_failure_reported:
  assumes "req_method req = ''POST''" and "authorized cfg req"
    and "compose cfg B (flatten (or_obj (req_body req))) = Inr (Some out)"
    and "fetch B (AMPLITUDE_ENDPOINT cfg @ ''/2/httpapi'') out = Inr r"
    and "\<not> (200 \<le> resp_status r \<and> resp_status r \<le> 299)"
    and "resp_text r = Inr body"
  shows "handler cfg B req
           = Json 500 (JObj [(''error'', JStr ''event_failed''),
                             (''status'', JNum (int (resp_status r))),
                             (''body'', JStr body)])"
  using assms
  by (simp add: handler_def deliver_def ok_def event_failed_def obj_def)

theorem delivery_failure_reported_witness:
  "handler example_config example_runtime
     \<lparr>req_method = ''POST'', query_token = Some ''secret'', req_body = Some scenario_A\<rparr>
   = Json 500 (JObj [(''error'', JStr ''event_failed''), (''status'', JNum 503),
                     (''body'', JStr ''Service Unavailable'')])"
proof -
  let ?req = "\<lparr>req_method = ''POST'', query_token = Some ''secret'', req_body = Some scenario_A\<rparr>"
  let ?r = "\<lparr>resp_status = 503, resp_text = Inr ''Service Unavailable''\<rparr>"
  have m: "req_method ?req = ''POST''" by simp
  have a: "authorized example_config ?req" by (simp add: authorized_def example_config_def)
  have f: "flatten (or_obj (req_body ?req)) = scenario_A"
    by (simp add: flatten_def scenario_A_def get_def)
  have c: "compose example_config example_runtime (flatten (or_obj (req_body ?req)))
             = Inr (Some scenario_A_out)"
    by (simp only: f compose_A)
  have d: "fetch example_runtime (AMPLITUDE_ENDPOINT example_config @ ''/2/httpapi'') scenario_A_out
             = Inr ?r"
    by (simp add: example_runtime_def)
  have s: "\<not> (200 \<le> resp_status ?r \<and> resp_status ?r \<le> 299)" by simp
  have t: "resp_text ?r = Inr ''Service Unavailable''" by simp
  from delivery_failure_reported [OF m a c d s t] show ?thesis by simp
qed

section \<open>The skipped outcome\<close>

text \<open>\<open>pickDeviceId\<close> never returns the empty string, so the handler never skips.\<close>

lemma scan_keys_nonempty: "scan_keys u ks = Some d \<Longrightarrow> d \<noteq> []"
  by (induction ks) (auto split: if_splits option.splits json.splits)

lemma pickDeviceId_nonempty: "pickDeviceId t p \<noteq> []"
  by (auto simp: pickDeviceId_def Let_def dest: scan_keys_nonempty split: option.splits)

lemma compose_not_skipped: "compose cfg B p \<noteq> Inr None"
  by (simp add: compose_def Let_def pickDeviceId_nonempty split: sum.splits prod.splits)

lemma deliver_not_skipped: "deliver cfg B out \<noteq> Inr skipped"
  by (simp add: deliver_def skipped_def event_failed_def split: sum.splits)

lemma handler_not_skipped: "handler cfg B req \<noteq> skipped"
proof -
  have a: "Sent n s \<noteq> skipped" for n s by (simp add: skipped_def)
  have b: "server_error e \<noteq> skipped" for e by (simp add: skipped_def server_error_def)
  show ?thesis
    using a b compose_not_skipped [of cfg B] deliver_not_skipped [of cfg B]
    by (auto simp: handler_def Let_def split: sum.splits option.splits)
qed

lemma show_int_example: "show_int 1700000000000 = ''1700000000000''"
  by (simp add: show_int_def show_nat.simps digit_char_def)

lemma compose_no_user_data:
  "\<exists>out. compose cfg B (JObj [(''name'', JStr ''OPEN'')]) = Inr (Some out)
         \<and> path out [''events'', ''1'', ''device_id'']
             = Some (JStr (pickDeviceId (now B) (JObj [(''name'', JStr ''OPEN'')])))"
proof -
  let ?p = "JObj [(''name'', JStr ''OPEN'')]"
  have n: "normalizeEventType ?p = Inr (Open, ''Branch Open'')"
    by (simp add: normalizeEventType_def event_name_def get_def js_or_def classify_def letter_defs)
  have w: "when_of B ?p = Inr (now B)"
    by (simp add: when_of_def get_def js_or_def)
  have "\<exists>be. branchEvent d la Open l w i ?p = Inr be \<and> get be ''device_id'' = Some (JStr d)"
    for d la l w i
    by (simp add: branchEvent_def get_def string_field_def obj_def)
  then obtain be where
    be: "branchEvent (pickDeviceId (now B) ?p) (latd_of ?p) Open ''Branch Open'' (now B)
           (buildInsertId ?p (now B) ''Branch Open'') ?p = Inr be"
    and d: "get be ''device_id'' = Some (JStr (pickDeviceId (now B) ?p))"
    by blast
  have "compose cfg B ?p = Inr (Some (combinedPayload cfg
          (identifyEvent (pickDeviceId (now B) ?p) (latd_of ?p) Open (now B)) be))"
    by (simp add: compose_def pickDeviceId_nonempty n w be)
  moreover have "path (combinedPayload cfg
          (identifyEvent (pickDeviceId (now B) ?p) (latd_of ?p) Open (now B)) be)
          [''events'', ''1'', ''device_id''] = Some (JStr (pickDeviceId (now B) ?p))"
    unfolding path_event using d by simp
  ultimately show ?thesis by blast
qed

text \<open>
  C1. A payload with no identity entry is to be skipped with no outbound record. At the
  payload \<^verbatim>\<open>{"name": "OPEN"}\<close>, read at the instant 1700000000000, \<open>pickDeviceId\<close>
  returns the placeholder \<^verbatim>\<open>fallback-1700000000000\<close> instead of signalling absence; the
  outbound records are composed with the placeholder as device id, and the outcome is
  not the skipped one.
\<close>

theorem no_device_id_placeholder:
  "pickDeviceId 1700000000000 (JObj [(''name'', JStr ''OPEN'')]) = ''fallback-1700000000000''
   \<and> (\<exists>out. compose cfg B (JObj [(''name'', JStr ''OPEN'')]) = Inr (Some out)
         \<and> path out [''events'', ''1'', ''device_id'']
             = Some (JStr (pickDeviceId (now B) (JObj [(''name'', JStr ''OPEN'')]))))
   \<and> handler cfg B \<lparr>req_method = ''POST'', query_token = tok,
                     req_body = Some (JObj [(''name'', JStr ''OPEN'')])\<rparr> \<noteq> skipped"
proof -
  have "pickDeviceId 1700000000000 (JObj [(''name'', JStr ''OPEN'')]) = ''fallback-1700000000000''"
    by (simp add: pickDeviceId_def get_def Object_keys_def show_int_example)
  then show ?thesis
    using compose_no_user_data handler_not_skipped by blast
qed

section \<open>The two-call variant: what it shares and where it differs\<close>

text \<open>Either of its two calls failing is reported in the same way.\<close>

lemma handler2_identify_failed:
  assumes "req_method req = ''POST''" and "authorized cfg req"
    and "p = flatten (or_obj (req_body req))"
    and "pickDeviceId2 p = Inr (Some deviceId)"
    and "when_of B p = Inr w"
    and "normalizeEventType p = Inr (type, label)"
    and "fetch B (AMPLITUDE_ENDPOINT cfg @ ''/identify'')
           (identifyBody2 cfg (identification deviceId (latd_of p) type w)) = Inr r"
    and "\<not> (200 \<le> resp_status r \<and> resp_status r \<le> 299)"
    and "resp_text r = Inr body"
  shows "handler2 cfg B req
           = Json 500 (JObj [(''error'', JStr ''identify_failed''),
                             (''status'', JNum (int (resp_status r))),
                             (''body'', JStr body)])"
  using assms
  by (simp add: handler2_def process2_def ok_def identify_failed_def obj_def)

lemma handler2_event_failed:
  assumes "req_method req = ''POST''" and "authorized cfg req"
    and "p = flatten (or_obj (req_body req))"
    and "pickDeviceId2 p = Inr (Some deviceId)"
    and "when_of B p = Inr w"
    and "normalizeEventType p = Inr (type, label)"
    and "fetch B (AMPLITUDE_ENDPOINT cfg @ ''/identify'')
           (identifyBody2 cfg (identification deviceId (latd_of p) type w)) = Inr r1"
    and "200 \<le> resp_status r1 \<and> resp_status r1 \<le> 299"
    and "eventBody2 cfg deviceId (latd_of p) type label w
           (buildInsertId p w label) p = Inr body2"
    and "fetch B (AMPLITUDE_ENDPOINT cfg @ ''/2/httpapi'') body2 = Inr r"
    and "\<not> (200 \<le> resp_status r \<and> resp_status r \<le> 299)"
    and "resp_text r = Inr body"
  shows "handler2 cfg B req
           = Json 500 (JObj [(''error'', JStr ''event_failed''),
                             (''status'', JNum (int (resp_status r))),
                             (''body'', JStr body)])"
  using assms
  by (simp add: handler2_def process2_def deliver_def ok_def event_failed_def obj_def)

text \<open>Its device id follows the precedence \<^verbatim>\<open>idfa\<close>, \<^verbatim>\<open>idfv\<close>, \<^verbatim>\<open>adid\<close> whatever the
  order of the keys, and sees lower-case keys only.\<close>

lemma pickDeviceId2_fixed_precedence:
  "pickDeviceId2 (JObj [(''user_data'', JObj [(''os'', JStr ''iOS''), (''idfv'', JStr ''  ''),
       (''GAID'', JStr '' g-1 ''), (''idfa'', JStr ''ABC'')])]) = Inr (Some ''ABC'')"
  by (simp add: pickDeviceId2_def get_def and_trim_def trim_def is_ws_def)

lemma pickDeviceId2_exact_keys:
  "pickDeviceId2 (JObj [(''user_data'', JObj [(''IDFA'', JStr ''ABC'')])]) = Inr None"
  by (simp add: pickDeviceId2_def get_def and_trim_def)

text \<open>
  C8. Each of app version, OS name, OS version and device model is to be sent exactly
  when the source holds a string for it. On the payload of scenario A, whose
  \<^verbatim>\<open>user_data\<close> holds the string \<^verbatim>\<open>""\<close> as \<^verbatim>\<open>app_version\<close> and the number 17 as
  \<^verbatim>\<open>os_version\<close>, the event body of the two-call variant takes the fields with
  \<^verbatim>\<open>||\<close>: it leaves the string out and sends the number.
\<close>

theorem eventBody2_metadata_truthy:
  "\<exists>body. eventBody2 cfg d latd type label w i scenario_A = Inr body
     \<and> path body [''events'', ''0'', ''app_version''] = None
     \<and> path body [''events'', ''0'', ''os_version''] = Some (JNum 17)"
proof -
  have u: "or_obj (get scenario_A ''user_data'')
             = JObj [(''idfa'', JStr ''ABC123''), (''os'', JStr ''iOS''),
                     (''os_version'', JNum 17), (''app_version'', JStr [])]"
    by (simp add: scenario_A_def get_def)
  have e: "get (obj [(''api_key'', k), (''events'', Some v)]) ''events'' = Some v" for k v
    by (cases k) (simp_all add: obj_def get_def)
  let ?u = "JObj [(''idfa'', JStr ''ABC123''), (''os'', JStr ''iOS''),
                  (''os_version'', JNum 17), (''app_version'', JStr [])]"
  have g: "get ?u ''app_version'' = Some (JStr [])" "get ?u ''os'' = Some (JStr ''iOS'')"
    "get ?u ''os_version'' = Some (JNum 17)" "get ?u ''device_model'' = None"
    by (simp_all add: get_def)
  have pf: "platform2 (Some (JStr ''iOS'')) = Inr ''iOS''"
    by (simp add: platform2_def js_or_def letter_defs)
  show ?thesis
    unfolding eventBody2_def Let_def u g pf
    by (simp add: e get_JArr_0 get_obj or_undefined_def)
qed

text \<open>The two-call variant signals absence on the same payload and skips it.\<close>

lemma pickDeviceId2_absent: "pickDeviceId2 (JObj [(''name'', JStr ''OPEN'')]) = Inr None"
  by (simp add: pickDeviceId2_def get_def and_trim_def)

lemma handler2_skips:
  "authorized cfg \<lparr>req_method = ''POST'', query_token = tok,
                     req_body = Some (JObj [(''name'', JStr ''OPEN'')])\<rparr> \<Longrightarrow>
   handler2 cfg B \<lparr>req_method = ''POST'', query_token = tok,
                     req_body = Some (JObj [(''name'', JStr ''OPEN'')])\<rparr> = skipped"
  by (simp add: handler2_def process2_def flatten_def get_def pickDeviceId2_absent)

end
